theory Spec2Isabelle
  imports Complex_Main
begin

section \<open>The co-evolving network of Network_Simulation.py\<close>

text \<open>
  The script holds a quantity per node and a weight per directed link. A float64 is
  modelled as the real number it denotes. The arithmetic of the quantity update rounds as
  float64 does; the functions that compute it take the rounding as their first argument,
  \<open>float64\<close> for the source and \<open>exact\<close> for arithmetic over the reals. The clamp only
  compares and copies values. A two-dimensional numpy array is a list of rows of equal
  length. Every exception of the script (an index out of range, a shape mismatch in a
  product, a negative array size) is a value of type \<open>error\<close>.
\<close>

subsection \<open>Module constants\<close>

text \<open>
  The module-level constants are read by the functions as globals; the record below holds
  them, and \<open>constants\<close> gives the values written in the source.
\<close>

record config =
  NODES :: int
  LINK_TH :: real
  LINK_W_BASE :: real
  LINK_W_DEV :: real
  NODE_Q_INIT :: real
  LINK_MOD_BASE :: real
  LINK_MOD_DEV :: real
  NODE_Q_MIN :: real
  NODE_Q_MAX :: real
  LINK_W_MIN :: real
  LINK_W_MAX :: real

definition constants :: config where
  "constants = \<lparr> NODES = 19, LINK_TH = 25 / 100, LINK_W_BASE = 25 / 100,
     LINK_W_DEV = 5 / 100, NODE_Q_INIT = 2, LINK_MOD_BASE = 1, LINK_MOD_DEV = 15 / 100,
     NODE_Q_MIN = 1 / 100, NODE_Q_MAX = 3, LINK_W_MIN = 1 / 100, LINK_W_MAX = 1 \<rparr>"

datatype error = IndexError | ValueError

type_synonym matrix = "real list list"

subsection \<open>float64 arithmetic\<close>

text \<open>
  Rounding to the nearest integer, a tie going to the even one.
\<close>

definition round_even :: "real \<Rightarrow> int" where
  "round_even r =
     (let f = \<lfloor>r\<rfloor>; d = r - of_int f
      in if d < 1 / 2 then f else if 1 / 2 < d then f + 1 else if even f then f else f + 1)"

text \<open>
  The binary exponent of a float64 near \<open>x\<close>: the largest \<open>e\<close> from \<open>-1022\<close> (where the
  subnormal numbers begin) to \<open>1023\<close> with \<open>2 ^ e \<le> |x|\<close>, found by counting up.
\<close>

function exponent_from :: "int \<Rightarrow> real \<Rightarrow> int" where
  "exponent_from e x =
     (if e < 1023 \<and> 2 powi (e + 1) \<le> \<bar>x\<bar> then exponent_from (e + 1) x else e)"
  by pat_completeness auto
termination
  by (relation "measure (\<lambda>(e, x). nat (1023 - e))") auto

declare exponent_from.simps [simp del]

text \<open>
  The float64 nearest to a real number (IEEE 754 binary64, round to nearest, ties to
  even): a multiple of \<open>2 ^ (e - 52)\<close> for the exponent \<open>e\<close> of \<open>x\<close>. Every operation of
  numpy on float64 values returns the exact result rounded in this way. A result of
  magnitude \<open>2 ^ 1024\<close> or more, which numpy turns into \<open>inf\<close>, is outside the model.
\<close>

definition float64 :: "real \<Rightarrow> real" where
  "float64 x =
     (let e = exponent_from (- 1022) x
      in of_int (round_even (x / 2 powi (e - 52))) * 2 powi (e - 52))"

text \<open>Arithmetic over the reals: no rounding.\<close>

definition exact :: "real \<Rightarrow> real" where
  "exact x = x"

text \<open>
  A sum accumulated from 0 in the order of the list, rounded by \<open>fl\<close> after every
  addition.
\<close>

definition fsum :: "(real \<Rightarrow> real) \<Rightarrow> real list \<Rightarrow> real" where
  "fsum fl xs = fold (\<lambda>x acc. fl (acc + x)) xs 0"

subsection \<open>limit_params\<close>

text \<open>
  The body of the inner loop of limit_params at index \<open>p\<close>: the three branches of the
  if/elif chain in the order of the source, and no assignment when none applies.
\<close>

definition limit_at :: "real \<times> real \<Rightarrow> real list \<Rightarrow> nat \<Rightarrow> real list" where
  "limit_at boundaries params p =
     (if params ! p > fst boundaries \<and> params ! p < snd boundaries then params[p := params ! p]
      else if params ! p < fst boundaries then params[p := fst boundaries]
      else if params ! p > snd boundaries then params[p := snd boundaries]
      else params)"

text \<open>The loop \<open>for p in range(len(params))\<close>, updating the list in place.\<close>

definition limit_loop :: "real \<times> real \<Rightarrow> real list \<Rightarrow> real list" where
  "limit_loop boundaries params =
     fold (\<lambda>p ps. limit_at boundaries ps p) [0..<length params] params"

text \<open>
  The outer loop runs over the two pairs of \<open>zip\<close>: the quantities with the quantity
  bounds, the flat links with the weight bounds.
\<close>

definition limit_params :: "config \<Rightarrow> real list \<Rightarrow> real list \<Rightarrow> real list \<times> real list" where
  "limit_params cfg quantities links_flat =
     (limit_loop (NODE_Q_MIN cfg, NODE_Q_MAX cfg) quantities,
      limit_loop (LINK_W_MIN cfg, LINK_W_MAX cfg) links_flat)"

text \<open>The clamp of one value, as the if/elif chain computes it.\<close>

definition limit_value :: "real \<times> real \<Rightarrow> real \<Rightarrow> real" where
  "limit_value boundaries v =
     (if v > fst boundaries \<and> v < snd boundaries then v
      else if v < fst boundaries then fst boundaries
      else if v > snd boundaries then snd boundaries
      else v)"

subsection \<open>Arrays\<close>

text \<open>
  The number of columns of an array given as its list of rows, and its \<open>shape\<close>. An
  array with no rows is given no columns.
\<close>

definition ncols :: "matrix \<Rightarrow> nat" where
  "ncols M = (case M of [] \<Rightarrow> 0 | row # _ \<Rightarrow> length row)"

definition shape :: "matrix \<Rightarrow> int \<times> int" where
  "shape M = (int (length M), int (ncols M))"

definition is_matrix :: "nat \<Rightarrow> nat \<Rightarrow> matrix \<Rightarrow> bool" where
  "is_matrix r c M = (length M = r \<and> list_all (\<lambda>row. length row = c) M)"

text \<open>
  Indexing with an index that \<open>range\<close> produced (never negative): \<open>xs[n]\<close> on a list
  or a one-dimensional array, \<open>M[i, j]\<close> on a two-dimensional array. Out of range is
  IndexError.
\<close>

definition getitem :: "real list \<Rightarrow> nat \<Rightarrow> error + real" where
  "getitem xs n = (if n < length xs then Inr (xs ! n) else Inl IndexError)"

definition getitem2 :: "matrix \<Rightarrow> nat \<Rightarrow> nat \<Rightarrow> error + real" where
  "getitem2 M i j = (if i < length M \<and> j < ncols M then Inr (M ! i ! j) else Inl IndexError)"

text \<open>
  \<open>np.dot\<close> of a vector and a matrix, and of two matrices: the inner dimensions must
  agree, otherwise numpy raises ValueError. Every product and every partial sum is rounded
  by \<open>fl\<close>. numpy leaves the order of the additions to its BLAS library; the model adds
  in the order of the index.
\<close>

definition dot_vm :: "(real \<Rightarrow> real) \<Rightarrow> real list \<Rightarrow> matrix \<Rightarrow> error + real list" where
  "dot_vm fl v M =
     (if length v \<noteq> length M then Inl ValueError
      else Inr (map (\<lambda>j. fsum fl (map (\<lambda>i. fl (v ! i * M ! i ! j)) [0..<length v]))
                  [0..<ncols M]))"

definition dot_mm :: "(real \<Rightarrow> real) \<Rightarrow> matrix \<Rightarrow> matrix \<Rightarrow> error + matrix" where
  "dot_mm fl A B =
     (if ncols A \<noteq> length B then Inl ValueError
      else Inr (map (\<lambda>i. map (\<lambda>j. fsum fl (map (\<lambda>k. fl (A ! i ! k * B ! k ! j)) [0..<ncols A]))
                             [0..<ncols B])
                  [0..<length A]))"

text \<open>
  \<open>repmat(a, m, n)\<close> of a one-dimensional \<open>a\<close>: \<open>m\<close> rows, each of them \<open>a\<close>
  repeated \<open>n\<close> times.
\<close>

definition repmat :: "real list \<Rightarrow> nat \<Rightarrow> nat \<Rightarrow> matrix" where
  "repmat a m n = replicate m (concat (replicate n a))"

definition diagonal :: "matrix \<Rightarrow> real list" where
  "diagonal M = map (\<lambda>i. M ! i ! i) [0..<min (length M) (ncols M)]"

text \<open>
  \<open>np.multiply\<close> of two arrays of one shape, the only case of the script: the second
  array is drawn with the shape of the first. The product and the draws below are kept
  unrounded: what is proved of them is where the weights are zero.
\<close>

definition multiply :: "matrix \<Rightarrow> matrix \<Rightarrow> matrix" where
  "multiply A B = map2 (\<lambda>ra rb. map2 (\<lambda>a b. a * b) ra rb) A B"

text \<open>
  \<open>np.random.uniform(low, high)\<close> for one number: the generator draws \<open>x\<close> in [0, 1)
  and the sample is \<open>low + (high - low) * x\<close>. The draws are parameters of the model.
\<close>

definition uniform1 :: "real \<Rightarrow> real \<Rightarrow> real \<Rightarrow> real" where
  "uniform1 low high x = low + (high - low) * x"

text \<open>
  \<open>np.random.uniform(low, high, size)\<close> for an array of two dimensions: \<open>u i j\<close> is
  the draw for entry (i, j). A negative dimension is ValueError.
\<close>

definition uniform :: "real \<Rightarrow> real \<Rightarrow> int \<times> int \<Rightarrow> (nat \<Rightarrow> nat \<Rightarrow> real) \<Rightarrow> error + matrix" where
  "uniform low high sz u =
     (if fst sz < 0 \<or> snd sz < 0 then Inl ValueError
      else Inr (map (\<lambda>i. map (\<lambda>j. uniform1 low high (u i j)) [0..<nat (snd sz)])
                  [0..<nat (fst sz)]))"

subsection \<open>network_dynamics\<close>

text \<open>
  The list comprehension
  \<open>[quantities[n] - losses[n] + transfers[n] for n in range(len(name_list))]\<close>:
  the three reads of each element in the order of the source, the first one out of range
  ending the comprehension with IndexError. The subtraction and the addition are rounded.
\<close>

fun merge_quantities ::
  "(real \<Rightarrow> real) \<Rightarrow> real list \<Rightarrow> real list \<Rightarrow> real list \<Rightarrow> nat list \<Rightarrow> error + real list" where
  "merge_quantities fl quantities losses transfers [] = Inr []"
| "merge_quantities fl quantities losses transfers (n # ns) =
     (case getitem quantities n of Inl e \<Rightarrow> Inl e | Inr q \<Rightarrow>
     (case getitem losses n of Inl e \<Rightarrow> Inl e | Inr l \<Rightarrow>
     (case getitem transfers n of Inl e \<Rightarrow> Inl e | Inr t \<Rightarrow>
     (case merge_quantities fl quantities losses transfers ns of Inl e \<Rightarrow> Inl e
      | Inr rest \<Rightarrow> Inr (fl (fl (q - l) + t) # rest)))))"

text \<open>
  The losses of the source: the diagonal of the product of the links with the quantities
  replicated into \<open>len(quantities)\<close> rows.
\<close>

definition losses_of :: "(real \<Rightarrow> real) \<Rightarrow> real list \<Rightarrow> matrix \<Rightarrow> error + real list" where
  "losses_of fl quantities links =
     (case dot_mm fl links (repmat quantities (length quantities) 1) of
        Inl e \<Rightarrow> Inl e
      | Inr product \<Rightarrow> Inr (diagonal product))"

text \<open>
  network_dynamics reads the global \<open>name_list\<close> (the names of the nodes, set by the
  main program) and the drift constants; both are parameters here, with the rounding
  \<open>fl\<close> of the arithmetic and the draws \<open>u\<close> of the random generator. It returns the
  new quantities and the drifted links. The source is \<open>network_dynamics float64\<close>.
\<close>

definition network_dynamics ::
  "(real \<Rightarrow> real) \<Rightarrow> config \<Rightarrow> string list \<Rightarrow> (nat \<Rightarrow> nat \<Rightarrow> real) \<Rightarrow> real list \<Rightarrow> matrix
    \<Rightarrow> error + real list \<times> matrix" where
  "network_dynamics fl cfg name_list u quantities links =
     (case dot_vm fl quantities links of Inl e \<Rightarrow> Inl e | Inr transfers \<Rightarrow>
     (case losses_of fl quantities links of Inl e \<Rightarrow> Inl e | Inr losses \<Rightarrow>
     (case merge_quantities fl quantities losses transfers [0..<length name_list] of
        Inl e \<Rightarrow> Inl e
      | Inr quantities' \<Rightarrow>
     (case uniform (LINK_MOD_BASE cfg - LINK_MOD_DEV cfg) (LINK_MOD_BASE cfg + LINK_MOD_DEV cfg)
             (shape links) u of
        Inl e \<Rightarrow> Inl e
      | Inr factors \<Rightarrow> Inr (quantities', multiply links factors)))))"

text \<open>
  The update rule in the words of the specification, computed with the rounding \<open>fl\<close>:
  what flows into node \<open>j\<close>, the sum over \<open>i\<close> of \<open>q[i] * W[i][j]\<close>; what node \<open>i\<close> loses,
  its quantity times the sum of its row of weights; and the new quantity of node \<open>i\<close>.
\<close>

definition transfer_spec :: "(real \<Rightarrow> real) \<Rightarrow> real list \<Rightarrow> matrix \<Rightarrow> nat \<Rightarrow> real" where
  "transfer_spec fl q W j = fsum fl (map (\<lambda>i. fl (q ! i * W ! i ! j)) [0..<length q])"

definition loss_spec :: "(real \<Rightarrow> real) \<Rightarrow> real list \<Rightarrow> matrix \<Rightarrow> nat \<Rightarrow> real" where
  "loss_spec fl q W i = fl (q ! i * fsum fl (W ! i))"

definition update_spec :: "(real \<Rightarrow> real) \<Rightarrow> real list \<Rightarrow> matrix \<Rightarrow> nat \<Rightarrow> real" where
  "update_spec fl q W i = fl (fl (q ! i - loss_spec fl q W i) + transfer_spec fl q W i)"

text \<open>
  The loss of node \<open>i\<close> as the source computes it, entry (i, i) of the product of the
  links with the replicated quantities: the sum over \<open>k\<close> of \<open>W[i][k] * q[i]\<close>.
\<close>

definition loss_diag :: "(real \<Rightarrow> real) \<Rightarrow> real list \<Rightarrow> matrix \<Rightarrow> nat \<Rightarrow> real" where
  "loss_diag fl q W i = fsum fl (map (\<lambda>k. fl (W ! i ! k * q ! i)) [0..<length q])"

subsection \<open>flatten\<close>

text \<open>
  The two nested loops of flatten, both over \<open>range(len(links))\<close>, appending the
  entries that are not zero.
\<close>

fun flatten_cols :: "matrix \<Rightarrow> nat \<Rightarrow> nat list \<Rightarrow> real list \<Rightarrow> error + real list" where
  "flatten_cols links lin [] links_flat = Inr links_flat"
| "flatten_cols links lin (col # cols) links_flat =
     (case getitem2 links lin col of Inl e \<Rightarrow> Inl e
      | Inr x \<Rightarrow> flatten_cols links lin cols (if x \<noteq> 0 then links_flat @ [x] else links_flat))"

fun flatten_rows :: "matrix \<Rightarrow> nat list \<Rightarrow> real list \<Rightarrow> error + real list" where
  "flatten_rows links [] links_flat = Inr links_flat"
| "flatten_rows links (lin # lins) links_flat =
     (case flatten_cols links lin [0..<length links] links_flat of Inl e \<Rightarrow> Inl e
      | Inr links_flat' \<Rightarrow> flatten_rows links lins links_flat')"

definition flatten :: "matrix \<Rightarrow> error + real list" where
  "flatten links = flatten_rows links [0..<length links] []"

subsection \<open>initialize_network\<close>






text \<open>A generator whose every draw is 0, for concrete runs.\<close>

definition zero_draws :: "nat \<Rightarrow> nat \<Rightarrow> real" where
  "zero_draws i j = 0"




subsection \<open>Facts about limit_params\<close>

lemma limit_at_eq: "limit_at b ps p = ps[p := limit_value b (ps ! p)]"
  by (simp add: limit_at_def limit_value_def)

lemma limit_prefix:
  "k \<le> length ps \<Longrightarrow>
   fold (\<lambda>p ps. limit_at b ps p) [0..<k] ps = map (limit_value b) (take k ps) @ drop k ps"
proof (induction k)
  case 0
  then show ?case by simp
next
  case (Suc k)
  then have k: "k < length ps" by simp
  have "fold (\<lambda>p ps. limit_at b ps p) [0..<Suc k] ps
      = limit_at b (map (limit_value b) (take k ps) @ drop k ps) k"
    using Suc by simp
  also have "\<dots> = (map (limit_value b) (take k ps) @ drop k ps)[k := limit_value b (ps ! k)]"
    using k by (simp add: limit_at_eq nth_append)
  also have "\<dots> = map (limit_value b) (take k ps) @ (drop k ps)[0 := limit_value b (ps ! k)]"
    using k by (simp add: list_update_append)
  also have "drop k ps = ps ! k # drop (Suc k) ps"
    using k by (simp add: Cons_nth_drop_Suc)
  also have "map (limit_value b) (take k ps) @ (ps ! k # drop (Suc k) ps)[0 := limit_value b (ps ! k)]
      = map (limit_value b) (take (Suc k) ps) @ drop (Suc k) ps"
    using k by (simp add: take_Suc_conv_app_nth)
  finally show ?case .
qed

lemma limit_loop_map: "limit_loop b ps = map (limit_value b) ps"
  using limit_prefix [of "length ps" ps b] by (simp add: limit_loop_def)

lemma limit_value_clamp:
  "lo \<le> hi \<Longrightarrow> limit_value (lo, hi) v = min (max v lo) hi"
  by (simp add: limit_value_def min_def max_def)

lemma limit_value_twice:
  "lo \<le> hi \<Longrightarrow> limit_value (lo, hi) (limit_value (lo, hi) v) = limit_value (lo, hi) v"
  by (simp add: limit_value_def)

lemma limit_value_inside: "lo \<le> v \<Longrightarrow> v \<le> hi \<Longrightarrow> limit_value (lo, hi) v = v"
  by (simp add: limit_value_def)

lemma limit_value_below: "lo \<le> hi \<Longrightarrow> v < lo \<Longrightarrow> limit_value (lo, hi) v = lo"
  by (simp add: limit_value_def)

lemma limit_value_above: "lo \<le> hi \<Longrightarrow> hi < v \<Longrightarrow> limit_value (lo, hi) v = hi"
  by (simp add: limit_value_def)

lemma limit_params_map:
  "limit_params cfg quantities links_flat =
     (map (limit_value (NODE_Q_MIN cfg, NODE_Q_MAX cfg)) quantities,
      map (limit_value (LINK_W_MIN cfg, LINK_W_MAX cfg)) links_flat)"
  by (simp add: limit_params_def limit_loop_map)

lemma limit_value_min_max:
  "lo \<le> hi \<Longrightarrow> limit_value (lo, hi) = (\<lambda>v. min (max v lo) hi)"
  by (simp add: fun_eq_iff limit_value_clamp)

lemma limit_value_cases:
  assumes "lo \<le> hi"
  shows "(lo \<le> v \<and> v \<le> hi \<longrightarrow> limit_value (lo, hi) v = v)
       \<and> (v < lo \<longrightarrow> limit_value (lo, hi) v = lo)
       \<and> (hi < v \<longrightarrow> limit_value (lo, hi) v = hi)"
  using assms by (simp add: limit_value_inside limit_value_below limit_value_above)

text \<open>
  C3. limit_params is the elementwise clamp to a closed interval. With the constants of
  the source the quantities become \<open>min (max v 0.01) 3\<close> and the flat links
  \<open>min (max v 0.01) 1\<close>. For any constants whose bound pairs are intervals (minimum at
  most maximum) the result is \<open>min (max v lo) hi\<close> elementwise, so that a value inside
  the closed interval is returned unchanged, a value below the minimum becomes the minimum
  and a value above the maximum becomes the maximum.
\<close>

theorem limit_params_is_clamp:
  "limit_params constants quantities links_flat =
     (map (\<lambda>v. min (max v (1 / 100)) 3) quantities,
      map (\<lambda>v. min (max v (1 / 100)) 1) links_flat)
   \<and> (NODE_Q_MIN cfg \<le> NODE_Q_MAX cfg \<and> LINK_W_MIN cfg \<le> LINK_W_MAX cfg \<longrightarrow>
        limit_params cfg quantities links_flat =
          (map (\<lambda>v. min (max v (NODE_Q_MIN cfg)) (NODE_Q_MAX cfg)) quantities,
           map (\<lambda>v. min (max v (LINK_W_MIN cfg)) (LINK_W_MAX cfg)) links_flat)
      \<and> (\<forall>p < length quantities.
            (NODE_Q_MIN cfg \<le> quantities ! p \<and> quantities ! p \<le> NODE_Q_MAX cfg
               \<longrightarrow> fst (limit_params cfg quantities links_flat) ! p = quantities ! p)
          \<and> (quantities ! p < NODE_Q_MIN cfg
               \<longrightarrow> fst (limit_params cfg quantities links_flat) ! p = NODE_Q_MIN cfg)
          \<and> (NODE_Q_MAX cfg < quantities ! p
               \<longrightarrow> fst (limit_params cfg quantities links_flat) ! p = NODE_Q_MAX cfg))
      \<and> (\<forall>p < length links_flat.
            (LINK_W_MIN cfg \<le> links_flat ! p \<and> links_flat ! p \<le> LINK_W_MAX cfg
               \<longrightarrow> snd (limit_params cfg quantities links_flat) ! p = links_flat ! p)
          \<and> (links_flat ! p < LINK_W_MIN cfg
               \<longrightarrow> snd (limit_params cfg quantities links_flat) ! p = LINK_W_MIN cfg)
          \<and> (LINK_W_MAX cfg < links_flat ! p
               \<longrightarrow> snd (limit_params cfg quantities links_flat) ! p = LINK_W_MAX cfg)))"
proof (intro conjI impI)
  have "limit_value (NODE_Q_MIN constants, NODE_Q_MAX constants) = (\<lambda>v. min (max v (1 / 100)) 3)"
    and "limit_value (LINK_W_MIN constants, LINK_W_MAX constants) = (\<lambda>v. min (max v (1 / 100)) 1)"
    by (simp_all add: constants_def limit_value_min_max)
  then show "limit_params constants quantities links_flat =
     (map (\<lambda>v. min (max v (1 / 100)) 3) quantities,
      map (\<lambda>v. min (max v (1 / 100)) 1) links_flat)"
    by (simp add: limit_params_map)
next
  assume "NODE_Q_MIN cfg \<le> NODE_Q_MAX cfg \<and> LINK_W_MIN cfg \<le> LINK_W_MAX cfg"
  then show "limit_params cfg quantities links_flat =
          (map (\<lambda>v. min (max v (NODE_Q_MIN cfg)) (NODE_Q_MAX cfg)) quantities,
           map (\<lambda>v. min (max v (LINK_W_MIN cfg)) (LINK_W_MAX cfg)) links_flat)"
    by (simp add: limit_params_map limit_value_min_max)
next
  assume b: "NODE_Q_MIN cfg \<le> NODE_Q_MAX cfg \<and> LINK_W_MIN cfg \<le> LINK_W_MAX cfg"
  show "\<forall>p < length quantities.
            (NODE_Q_MIN cfg \<le> quantities ! p \<and> quantities ! p \<le> NODE_Q_MAX cfg
               \<longrightarrow> fst (limit_params cfg quantities links_flat) ! p = quantities ! p)
          \<and> (quantities ! p < NODE_Q_MIN cfg
               \<longrightarrow> fst (limit_params cfg quantities links_flat) ! p = NODE_Q_MIN cfg)
          \<and> (NODE_Q_MAX cfg < quantities ! p
               \<longrightarrow> fst (limit_params cfg quantities links_flat) ! p = NODE_Q_MAX cfg)"
    using b limit_value_cases [of "NODE_Q_MIN cfg" "NODE_Q_MAX cfg"]
    by (simp add: limit_params_map)
next
  assume b: "NODE_Q_MIN cfg \<le> NODE_Q_MAX cfg \<and> LINK_W_MIN cfg \<le> LINK_W_MAX cfg"
  show "\<forall>p < length links_flat.
            (LINK_W_MIN cfg \<le> links_flat ! p \<and> links_flat ! p \<le> LINK_W_MAX cfg
               \<longrightarrow> snd (limit_params cfg quantities links_flat) ! p = links_flat ! p)
          \<and> (links_flat ! p < LINK_W_MIN cfg
               \<longrightarrow> snd (limit_params cfg quantities links_flat) ! p = LINK_W_MIN cfg)
          \<and> (LINK_W_MAX cfg < links_flat ! p
               \<longrightarrow> snd (limit_params cfg quantities links_flat) ! p = LINK_W_MAX cfg)"
    using b limit_value_cases [of "LINK_W_MIN cfg" "LINK_W_MAX cfg"]
    by (simp add: limit_params_map)
qed

theorem limit_params_is_clamp_witness:
  "NODE_Q_MIN constants \<le> NODE_Q_MAX constants \<and> LINK_W_MIN constants \<le> LINK_W_MAX constants
   \<and> limit_params constants [1 / 200, 2, 5, 3, 1 / 100] [1 / 2, 2, 1 / 1000]
       = ([1 / 100, 2, 3, 3, 1 / 100], [1 / 2, 1, 1 / 100])"
proof -
  have b: "NODE_Q_MIN constants \<le> NODE_Q_MAX constants \<and> LINK_W_MIN constants \<le> LINK_W_MAX constants"
    by (simp add: constants_def)
  show ?thesis
    using b limit_params_is_clamp
      [of "[1 / 200, 2, 5, 3, 1 / 100]" "[1 / 2, 2, 1 / 1000]" constants]
    by (simp add: constants_def)
qed

text \<open>
  C7. limit_params is idempotent: clamping the lists it returned gives the same lists
  again, with the constants of the source and with any constants whose bound pairs are
  intervals.
\<close>

theorem limit_params_idempotent:
  "limit_params constants (fst (limit_params constants quantities links_flat))
                          (snd (limit_params constants quantities links_flat))
     = limit_params constants quantities links_flat
   \<and> (NODE_Q_MIN cfg \<le> NODE_Q_MAX cfg \<and> LINK_W_MIN cfg \<le> LINK_W_MAX cfg \<longrightarrow>
        limit_params cfg (fst (limit_params cfg quantities links_flat))
                         (snd (limit_params cfg quantities links_flat))
          = limit_params cfg quantities links_flat)"
proof -
  have "limit_params c (fst (limit_params c quantities links_flat))
                       (snd (limit_params c quantities links_flat))
          = limit_params c quantities links_flat"
    if "NODE_Q_MIN c \<le> NODE_Q_MAX c" and "LINK_W_MIN c \<le> LINK_W_MAX c" for c
    using that by (simp add: limit_params_map limit_value_twice)
  moreover have "NODE_Q_MIN constants \<le> NODE_Q_MAX constants"
    and "LINK_W_MIN constants \<le> LINK_W_MAX constants"
    by (simp_all add: constants_def)
  ultimately show ?thesis by blast
qed

theorem limit_params_idempotent_witness:
  "NODE_Q_MIN constants \<le> NODE_Q_MAX constants \<and> LINK_W_MIN constants \<le> LINK_W_MAX constants
   \<and> limit_params constants (fst (limit_params constants [1 / 200, 2, 5] [1 / 2, 2]))
                              (snd (limit_params constants [1 / 200, 2, 5] [1 / 2, 2]))
       = ([1 / 100, 2, 3], [1 / 2, 1])"
proof -
  have b: "NODE_Q_MIN constants \<le> NODE_Q_MAX constants \<and> LINK_W_MIN constants \<le> LINK_W_MAX constants"
    by (simp add: constants_def)
  have once: "limit_params constants [1 / 200, 2, 5] [1 / 2, 2] = ([1 / 100, 2, 3], [1 / 2, 1])"
    by (simp add: limit_params_map limit_value_def constants_def)
  show ?thesis
    using b once limit_params_idempotent [of "[1 / 200, 2, 5]" "[1 / 2, 2]" constants]
    by simp
qed

subsection \<open>Facts about float64\<close>

lemma round_even_near: "\<bar>r - of_int m\<bar> < 1 / 2 \<Longrightarrow> round_even r = m"
proof -
  assume h: "\<bar>r - of_int m\<bar> < 1 / 2"
  show ?thesis
  proof (cases "of_int m \<le> r")
    case True
    with h have "\<lfloor>r\<rfloor> = m" by (intro floor_unique) linarith+
    with h True show ?thesis by (simp add: round_even_def Let_def)
  next
    case False
    with h have "of_int (m - 1) \<le> r" and "r < of_int (m - 1) + 1" by simp_all
    then have "\<lfloor>r\<rfloor> = m - 1" by (rule floor_unique)
    with h False show ?thesis by (simp add: round_even_def Let_def)
  qed
qed

lemma exponent_from_eq:
  "e0 \<le> e \<Longrightarrow> e \<le> 1023 \<Longrightarrow> 2 powi e \<le> \<bar>x\<bar> \<Longrightarrow> \<bar>x\<bar> < 2 powi (e + 1) \<Longrightarrow>
   exponent_from e0 x = e"
proof (induction "nat (e - e0)" arbitrary: e0)
  case 0
  then have "e0 = e" by simp
  with 0 show ?case by (subst exponent_from.simps) simp
next
  case (Suc k)
  then have lt: "e0 < e" by linarith
  then have "(2::real) powi (e0 + 1) \<le> 2 powi e"
    by (intro power_int_increasing) simp_all
  with Suc.prems have c: "e0 < 1023 \<and> 2 powi (e0 + 1) \<le> \<bar>x\<bar>" using lt by linarith
  have "exponent_from (e0 + 1) x = e"
    using Suc lt by (intro Suc.hyps(1)) linarith+
  with c show ?case by (subst exponent_from.simps) simp
qed

text \<open>
  How a rounding is checked: with the exponent \<open>e\<close> of \<open>x\<close> and an integer \<open>m\<close> nearer
  than a half to \<open>x / 2 ^ (e - 52)\<close>, the float64 of \<open>x\<close> is \<open>m * 2 ^ (e - 52)\<close>.
\<close>

lemma float64_eval:
  assumes "- 1022 \<le> e" and "e \<le> 1023"
    and "2 powi e \<le> \<bar>x\<bar>" and "\<bar>x\<bar> < 2 powi (e + 1)"
    and "\<bar>x / 2 powi (e - 52) - of_int m\<bar> < 1 / 2"
  shows "float64 x = of_int m * 2 powi (e - 52)"
  using exponent_from_eq [OF assms(1-4)] round_even_near [OF assms(5)]
  by (simp add: float64_def)

lemma round_even_tie:
  "r = of_int f + 1 / 2 \<Longrightarrow> round_even r = (if even f then f else f + 1)"
proof -
  assume h: "r = of_int f + 1 / 2"
  then have "\<lfloor>r\<rfloor> = f" by (intro floor_unique) simp_all
  with h show ?thesis by (simp add: round_even_def Let_def)
qed

text \<open>The same for a tie, \<open>x / 2 ^ (e - 52)\<close> half way between \<open>f\<close> and \<open>f + 1\<close>.\<close>

lemma float64_eval_tie:
  assumes "- 1022 \<le> e" and "e \<le> 1023"
    and "2 powi e \<le> \<bar>x\<bar>" and "\<bar>x\<bar> < 2 powi (e + 1)"
    and "x / 2 powi (e - 52) = of_int f + 1 / 2"
  shows "float64 x = of_int (if even f then f else f + 1) * 2 powi (e - 52)"
  using exponent_from_eq [OF assms(1-4)] round_even_tie [OF assms(5)]
  by (simp add: float64_def)

lemma float64_0: "float64 0 = 0"
proof -
  have "exponent_from (- 1022) 0 = - 1022"
    by (subst exponent_from.simps) simp
  then show ?thesis by (simp add: float64_def round_even_def)
qed

lemma float64_half: "float64 (1 / 2) = 1 / 2"
  using float64_eval [of "- 1" "1 / 2" 4503599627370496] by simp

lemma fold_add: "fold (\<lambda>x acc. acc + x) xs a = a + sum_list (xs :: real list)"
  by (induction xs arbitrary: a) simp_all

lemma fsum_exact: "fsum exact xs = sum_list xs"
  by (simp add: fsum_def exact_def fold_add)

subsection \<open>Facts about the array operations and network_dynamics\<close>

lemma is_matrix_row: "is_matrix r c M \<Longrightarrow> i < r \<Longrightarrow> length (M ! i) = c"
  by (simp add: is_matrix_def list_all_length)

lemma is_matrix_length: "is_matrix r c M \<Longrightarrow> length M = r"
  by (simp add: is_matrix_def)

lemma is_matrix_ncols: "is_matrix r c M \<Longrightarrow> 0 < r \<Longrightarrow> ncols M = c"
  by (cases M) (simp_all add: is_matrix_def ncols_def)

lemma square_ncols: "is_matrix n n M \<Longrightarrow> ncols M = n"
  by (cases M) (simp_all add: is_matrix_def ncols_def)

lemma dot_vm_square:
  "length q = n \<Longrightarrow> is_matrix n n W \<Longrightarrow>
   dot_vm fl q W = Inr (map (transfer_spec fl q W) [0..<n])"
  by (simp add: dot_vm_def is_matrix_length square_ncols transfer_spec_def)

lemma repmat_one: "repmat a m (Suc 0) = replicate m a"
  by (simp add: repmat_def)

lemma ncols_replicate: "length a = m \<Longrightarrow> ncols (replicate m a) = m"
  by (cases m) (simp_all add: ncols_def)

lemma ncols_map_upt:
  "(\<And>i. i < r \<Longrightarrow> length (f i) = c) \<Longrightarrow> 0 < r \<Longrightarrow> ncols (map f [0..<r]) = c"
  by (simp add: ncols_def upt_conv_Cons split: list.splits)

lemma row_sum_scaled:
  "length row = n \<Longrightarrow> (\<Sum>k\<leftarrow>[0..<n]. row ! k * x) = (x::real) * sum_list row"
proof -
  assume n: "length row = n"
  have "(\<Sum>k\<leftarrow>[0..<n]. row ! k * x) = (\<Sum>k\<leftarrow>[0..<n]. row ! k) * x"
    using sum_list_mult_const [where f = "\<lambda>k. row ! k" and c = x and xs = "[0..<n]"] .
  also have "map (\<lambda>k. row ! k) [0..<n] = row"
    using n map_nth [of row] by simp
  finally show ?thesis by (simp add: mult.commute)
qed

lemma map_replicate_rows:
  "map (\<lambda>k. fl (f k * replicate n q ! k ! j)) [0..<n] = map (\<lambda>k. fl (f k * (q ! j :: real))) [0..<n]"
  by simp

lemma dot_mm_repmat:
  assumes "length q = n" and "is_matrix n n W"
  shows "dot_mm fl W (repmat q (length q) 1)
         = Inr (map (\<lambda>i. map (\<lambda>j. fsum fl (map (\<lambda>k. fl (W ! i ! k * q ! j)) [0..<n])) [0..<n])
                  [0..<n])"
  using assms
  by (simp add: dot_mm_def repmat_one square_ncols ncols_replicate is_matrix_length
        map_replicate_rows)

lemma diagonal_product:
  "diagonal (map (\<lambda>i. map (\<lambda>j. f i j) [0..<n]) [0..<n]) = map (\<lambda>i. f i i) [0..<n]"
proof (cases n)
  case 0
  then show ?thesis by (simp add: diagonal_def ncols_def)
next
  case (Suc m)
  then have "ncols (map (\<lambda>i. map (\<lambda>j. f i j) [0..<n]) [0..<n]) = n"
    by (intro ncols_map_upt) simp_all
  then show ?thesis by (simp add: diagonal_def)
qed

lemma losses_of_square:
  assumes "length q = n" and "is_matrix n n W"
  shows "losses_of fl q W = Inr (map (loss_diag fl q W) [0..<n])"
proof -
  have "losses_of fl q W
      = Inr (map (\<lambda>i. fsum fl (map (\<lambda>k. fl (W ! i ! k * q ! i)) [0..<n])) [0..<n])"
    by (simp only: losses_of_def dot_mm_repmat [OF assms] sum.case diagonal_product)
  then show ?thesis using assms(1) by (simp add: loss_diag_def)
qed

lemma transfer_spec_exact:
  "transfer_spec exact q W j = (\<Sum>i\<leftarrow>[0..<length q]. q ! i * W ! i ! j)"
  by (simp add: transfer_spec_def fsum_exact) (simp add: exact_def)


lemma loss_diag_exact:
  "length q = n \<Longrightarrow> is_matrix n n W \<Longrightarrow> i < n \<Longrightarrow> loss_diag exact q W i = q ! i * sum_list (W ! i)"
  by (simp add: loss_diag_def fsum_exact) (simp add: exact_def row_sum_scaled is_matrix_row)

lemma merge_quantities_in_range:
  "\<forall>n \<in> set ns. n < length q \<and> n < length l \<and> n < length t \<Longrightarrow>
   merge_quantities fl q l t ns = Inr (map (\<lambda>n. fl (fl (q ! n - l ! n) + t ! n)) ns)"
  by (induction ns) (simp_all add: getitem_def)

lemma merge_quantities_error:
  "merge_quantities fl q l t ns = Inl e \<Longrightarrow> e = IndexError"
  by (induction ns) (auto simp: getitem_def split: sum.splits if_splits)

lemma merge_quantities_out_of_range:
  "\<exists>n \<in> set ns. \<not> (n < length q \<and> n < length l \<and> n < length t) \<Longrightarrow>
   merge_quantities fl q l t ns = Inl IndexError"
proof (induction ns)
  case Nil
  then show ?case by simp
next
  case (Cons n ns)
  show ?case
  proof (cases "merge_quantities fl q l t (n # ns)")
    case (Inl e)
    then show ?thesis using merge_quantities_error by blast
  next
    case (Inr r)
    then have "n < length q \<and> n < length l \<and> n < length t"
      by (auto simp: getitem_def split: sum.splits if_splits)
    moreover from Inr obtain r' where "merge_quantities fl q l t ns = Inr r'"
      by (auto simp: getitem_def split: sum.splits if_splits)
    ultimately show ?thesis using Cons by auto
  qed
qed

lemma uniform_shape:
  "uniform low high (shape W) u =
     Inr (map (\<lambda>i. map (\<lambda>j. uniform1 low high (u i j)) [0..<ncols W]) [0..<length W])"
  by (simp add: uniform_def shape_def)

lemma network_dynamics_square:
  assumes "length q = n" and "is_matrix n n W"
  shows "network_dynamics fl cfg name_list u q W =
     (case merge_quantities fl q (map (loss_diag fl q W) [0..<n])
             (map (transfer_spec fl q W) [0..<n]) [0..<length name_list] of
        Inl e \<Rightarrow> Inl e
      | Inr q' \<Rightarrow> Inr (q', multiply W
          (map (\<lambda>i. map (\<lambda>j. uniform1 (LINK_MOD_BASE cfg - LINK_MOD_DEV cfg)
                               (LINK_MOD_BASE cfg + LINK_MOD_DEV cfg) (u i j))
                 [0..<n]) [0..<n])))"
  using assms
  by (simp add: network_dynamics_def dot_vm_square [OF assms] losses_of_square [OF assms]
        uniform_shape square_ncols is_matrix_length split: sum.splits)

lemma network_dynamics_in_range:
  assumes "length q = n" and "is_matrix n n W" and "length name_list \<le> n"
  shows "\<exists>links'. network_dynamics fl cfg name_list u q W =
           Inr (map (\<lambda>i. fl (fl (q ! i - loss_diag fl q W i) + transfer_spec fl q W i))
                  [0..<length name_list], links')"
proof -
  have "merge_quantities fl q (map (loss_diag fl q W) [0..<n])
          (map (transfer_spec fl q W) [0..<n]) [0..<length name_list]
        = Inr (map (\<lambda>i. fl (fl (q ! i - map (loss_diag fl q W) [0..<n] ! i)
                          + map (transfer_spec fl q W) [0..<n] ! i))
                [0..<length name_list])"
    using assms by (intro merge_quantities_in_range) simp
  also have "map (\<lambda>i. fl (fl (q ! i - map (loss_diag fl q W) [0..<n] ! i)
                          + map (transfer_spec fl q W) [0..<n] ! i))
                [0..<length name_list]
           = map (\<lambda>i. fl (fl (q ! i - loss_diag fl q W i) + transfer_spec fl q W i))
                [0..<length name_list]"
    using assms(3) by simp
  finally show ?thesis
    by (simp add: network_dynamics_square [OF assms(1,2)])
qed

lemma network_dynamics_out_of_range:
  assumes "length q = n" and "is_matrix n n W" and "n < length name_list"
  shows "network_dynamics fl cfg name_list u q W = Inl IndexError"
proof -
  have "merge_quantities fl q (map (loss_diag fl q W) [0..<n])
          (map (transfer_spec fl q W) [0..<n]) [0..<length name_list] = Inl IndexError"
    using assms by (intro merge_quantities_out_of_range) (auto intro: bexI [of _ n])
  then show ?thesis
    by (simp add: network_dynamics_square [OF assms(1,2)])
qed

lemma list2_eq: "length xs = 2 \<Longrightarrow> xs ! 0 = a \<Longrightarrow> xs ! 1 = b \<Longrightarrow> xs = [a, b]"
  by (auto simp: list_eq_iff_nth_eq less_Suc_eq numeral_2_eq_2)

lemma total_flow:
  assumes "length q = n" and "is_matrix n n W"
  shows "(\<Sum>j\<leftarrow>[0..<n]. \<Sum>i\<leftarrow>[0..<n]. q ! i * W ! i ! j) = (\<Sum>i\<leftarrow>[0..<n]. q ! i * sum_list (W ! i))"
proof -
  have "(\<Sum>j\<leftarrow>[0..<n]. \<Sum>i\<leftarrow>[0..<n]. q ! i * W ! i ! j)
        = (\<Sum>j = 0..<n. \<Sum>i = 0..<n. q ! i * W ! i ! j)"
    by (simp add: interv_sum_list_conv_sum_set_nat)
  also have "\<dots> = (\<Sum>i = 0..<n. \<Sum>j = 0..<n. q ! i * W ! i ! j)"
    by (rule sum.swap)
  also have "\<dots> = (\<Sum>i = 0..<n. q ! i * (\<Sum>j = 0..<n. W ! i ! j))"
    by (simp add: sum_distrib_left)
  also have "\<dots> = (\<Sum>i = 0..<n. q ! i * sum_list (W ! i))"
    using assms(2) by (simp add: sum_list_sum_nth is_matrix_row)
  also have "\<dots> = (\<Sum>i\<leftarrow>[0..<n]. q ! i * sum_list (W ! i))"
    by (simp add: interv_sum_list_conv_sum_set_nat)
  finally show ?thesis .
qed

lemma sum_list_update:
  "length q = n \<Longrightarrow>
   (\<Sum>i\<leftarrow>[0..<n]. q ! i - l i + t i) = sum_list q - (\<Sum>i\<leftarrow>[0..<n]. l i) + (\<Sum>i\<leftarrow>[0..<n]. (t i :: real))"
proof -
  assume n: "length q = n"
  have "(\<Sum>i\<leftarrow>[0..<n]. q ! i - l i + t i) = (\<Sum>i = 0..<n. q ! i - l i + t i)"
    by (simp add: interv_sum_list_conv_sum_set_nat)
  also have "\<dots> = (\<Sum>i = 0..<n. q ! i) - (\<Sum>i = 0..<n. l i) + (\<Sum>i = 0..<n. t i)"
    by (simp add: sum.distrib sum_subtractf)
  also have "(\<Sum>i = 0..<n. q ! i) = sum_list q"
    using n by (simp add: sum_list_sum_nth)
  finally show ?thesis by (simp add: interv_sum_list_conv_sum_set_nat)
qed

text \<open>With exact arithmetic the quantities that network_dynamics returns are the rule of
  the specification.\<close>

lemma network_dynamics_exact:
  assumes "length q = n" and "is_matrix n n W" and "length name_list = n"
  shows "\<exists>links'. network_dynamics exact cfg name_list u q W =
           Inr (map (\<lambda>i. q ! i - q ! i * sum_list (W ! i) + (\<Sum>k\<leftarrow>[0..<n]. q ! k * W ! k ! i))
                  [0..<n], links')"
proof -
  from network_dynamics_in_range [of q n W name_list exact cfg u] assms
  obtain links' where nd: "network_dynamics exact cfg name_list u q W =
      Inr (map (\<lambda>i. exact (exact (q ! i - loss_diag exact q W i) + transfer_spec exact q W i))
             [0..<n], links')"
    by auto
  have "map (\<lambda>i. exact (exact (q ! i - loss_diag exact q W i) + transfer_spec exact q W i)) [0..<n]
      = map (\<lambda>i. q ! i - q ! i * sum_list (W ! i) + (\<Sum>k\<leftarrow>[0..<n]. q ! k * W ! k ! i)) [0..<n]"
    using assms(1,2) by (simp add: loss_diag_exact transfer_spec_exact) (simp add: exact_def)
  with nd show ?thesis by simp
qed

lemma is_matrix_multiply:
  "is_matrix r c A \<Longrightarrow> is_matrix r c B \<Longrightarrow> is_matrix r c (multiply A B)"
  by (auto simp: is_matrix_def multiply_def list_all_length)

lemma multiply_nth:
  "is_matrix r c A \<Longrightarrow> is_matrix r c B \<Longrightarrow> i < r \<Longrightarrow> j < c \<Longrightarrow>
   multiply A B ! i ! j = A ! i ! j * B ! i ! j"
  by (simp add: is_matrix_def multiply_def list_all_length)

subsection \<open>Facts about flatten\<close>

lemma flatten_cols_in_range:
  "lin < length links \<Longrightarrow> \<forall>col \<in> set cols. col < ncols links \<Longrightarrow>
   flatten_cols links lin cols links_flat
     = Inr (links_flat @ filter (\<lambda>x. x \<noteq> 0) (map (\<lambda>col. links ! lin ! col) cols))"
  by (induction cols arbitrary: links_flat) (simp_all add: getitem2_def)

lemma flatten_row:
  assumes "is_matrix n n links" and "lin < n"
  shows "flatten_cols links lin [0..<length links] links_flat
     = Inr (links_flat @ filter (\<lambda>x. x \<noteq> 0) (links ! lin))"
proof -
  have "map (\<lambda>col. links ! lin ! col) [0..<n] = links ! lin"
    using map_nth [of "links ! lin"] is_matrix_row [OF assms] by simp
  then show ?thesis
    using assms flatten_cols_in_range [of lin links "[0..<n]" links_flat]
    by (simp add: is_matrix_length square_ncols)
qed

lemma flatten_rows_in_range:
  "is_matrix n n links \<Longrightarrow> \<forall>lin \<in> set lins. lin < n \<Longrightarrow>
   flatten_rows links lins links_flat
     = Inr (links_flat @ concat (map (\<lambda>lin. filter (\<lambda>x. x \<noteq> 0) (links ! lin)) lins))"
  by (induction lins arbitrary: links_flat) (simp_all add: flatten_row)

lemma flatten_square:
  assumes "is_matrix n n links"
  shows "flatten links = Inr (filter (\<lambda>x. x \<noteq> 0) (concat links))"
proof -
  have "map (\<lambda>lin. filter (\<lambda>x. x \<noteq> 0) (links ! lin)) [0..<n] = map (filter (\<lambda>x. x \<noteq> 0)) links"
    using assms by (simp add: list_eq_iff_nth_eq is_matrix_length)
  then show ?thesis
    using flatten_rows_in_range [OF assms, of "[0..<n]" "[]"] assms
    by (simp add: flatten_def is_matrix_length filter_concat)
qed

lemma count_nonzero:
  assumes "is_matrix n n links"
  shows "length (filter (\<lambda>x. x \<noteq> 0) (concat links))
         = card {(i, j). i < n \<and> j < n \<and> links ! i ! j \<noteq> 0}"
proof -
  have "length (filter (\<lambda>x. x \<noteq> 0) (concat links))
        = (\<Sum>row\<leftarrow>links. length (filter (\<lambda>x. x \<noteq> 0) row))"
    by (simp add: filter_concat length_concat comp_def)
  also have "\<dots> = (\<Sum>i = 0..<n. length (filter (\<lambda>x. x \<noteq> 0) (links ! i)))"
    using assms sum_list_sum_nth [of "map (\<lambda>row. length (filter (\<lambda>x. x \<noteq> 0) row)) links"]
    by (simp add: is_matrix_length)
  also have "\<dots> = (\<Sum>i = 0..<n. card {j. j < n \<and> links ! i ! j \<noteq> 0})"
    using assms by (simp add: length_filter_conv_card is_matrix_row)
  also have "\<dots> = card (SIGMA i:{0..<n}. {j. j < n \<and> links ! i ! j \<noteq> 0})"
    by simp
  also have "(SIGMA i:{0..<n}. {j. j < n \<and> links ! i ! j \<noteq> 0})
             = {(i, j). i < n \<and> j < n \<and> links ! i ! j \<noteq> 0}"
    by auto
  finally show ?thesis .
qed

subsection \<open>Roundings used in the examples\<close>

text \<open>
  The float64 values of the numbers that occur in the runs below, each checked with its
  exponent and its integer multiple of the last place.
\<close>

lemma float64_at_1: "float64 (12980742146337070512478121581609 / 1298074214633706907132624082305024) = 1441151880758559 / 144115188075855872"
  using float64_eval [of "- 7" "12980742146337070512478121581609 / 1298074214633706907132624082305024" 5764607523034236] by simp

lemma float64_at_2: "float64 (1441151880758559 / 144115188075855872) = 1441151880758559 / 144115188075855872"
  using float64_eval [of "- 7" "1441151880758559 / 144115188075855872" 5764607523034236] by simp

lemma float64_at_3: "float64 (12980742146337070512478121581609 / 649037107316853453566312041152512) = 1441151880758559 / 72057594037927936"
  using float64_eval [of "- 6" "12980742146337070512478121581609 / 649037107316853453566312041152512" 5764607523034236] by simp

lemma float64_at_4: "float64 (1441151880758559 / 72057594037927936) = 1441151880758559 / 72057594037927936"
  using float64_eval [of "- 6" "1441151880758559 / 72057594037927936" 5764607523034236] by simp

lemma float64_at_5: "float64 (3602879701896397 / 144115188075855872) = 3602879701896397 / 144115188075855872"
  using float64_eval [of "- 6" "3602879701896397 / 144115188075855872" 7205759403792794] by simp

lemma float64_at_6: "float64 (1080863910568919 / 36028797018963968) = 1080863910568919 / 36028797018963968"
  using float64_eval [of "- 6" "1080863910568919 / 36028797018963968" 8646911284551352] by simp

lemma float64_at_7: "float64 (19471113219505603967277331424215 / 649037107316853453566312041152512) = 1080863910568919 / 36028797018963968"
  using float64_eval [of "- 6" "19471113219505603967277331424215 / 649037107316853453566312041152512" 8646911284551352] by simp

lemma float64_at_8: "float64 (2161727821137839 / 72057594037927936) = 2161727821137839 / 72057594037927936"
  using float64_eval [of "- 6" "2161727821137839 / 72057594037927936" 8646911284551356] by simp

lemma float64_at_9: "float64 (11358149378044935347338468172759 / 324518553658426726783156020576256) = 5044031582654955 / 144115188075855872"
  using float64_eval [of "- 5" "11358149378044935347338468172759 / 324518553658426726783156020576256" 5044031582654955] by simp

lemma float64_at_10: "float64 (1261007895663739 / 36028797018963968) = 1261007895663739 / 36028797018963968"
  using float64_eval [of "- 5" "1261007895663739 / 36028797018963968" 5044031582654956] by simp

lemma float64_at_11: "float64 (5764607523034235 / 144115188075855872) = 5764607523034235 / 144115188075855872"
  using float64_eval [of "- 5" "5764607523034235 / 144115188075855872" 5764607523034235] by simp

lemma float64_at_12: "float64 (12980742146337070512478121581609 / 324518553658426726783156020576256) = 1441151880758559 / 36028797018963968"
  using float64_eval [of "- 5" "12980742146337070512478121581609 / 324518553658426726783156020576256" 5764607523034236] by simp

lemma float64_at_13: "float64 (5764607523034237 / 144115188075855872) = 5764607523034237 / 144115188075855872"
  using float64_eval [of "- 5" "5764607523034237 / 144115188075855872" 5764607523034237] by simp

lemma float64_at_14: "float64 (1080863910568919 / 18014398509481984) = 1080863910568919 / 18014398509481984"
  using float64_eval [of "- 5" "1080863910568919 / 18014398509481984" 8646911284551352] by simp

lemma float64_at_15: "float64 (8646911284551353 / 144115188075855872) = 8646911284551353 / 144115188075855872"
  using float64_eval [of "- 5" "8646911284551353 / 144115188075855872" 8646911284551353] by simp

lemma float64_at_16: "float64 (5044031582654955 / 72057594037927936) = 5044031582654955 / 72057594037927936"
  using float64_eval [of "- 4" "5044031582654955 / 72057594037927936" 5044031582654955] by simp

lemma float64_at_17: "float64 (11358149378044935347338468172759 / 162259276829213363391578010288128) = 5044031582654955 / 72057594037927936"
  using float64_eval [of "- 4" "11358149378044935347338468172759 / 162259276829213363391578010288128" 5044031582654955] by simp

lemma float64_at_18: "float64 (5764607523034235 / 72057594037927936) = 5764607523034235 / 72057594037927936"
  using float64_eval [of "- 4" "5764607523034235 / 72057594037927936" 5764607523034235] by simp

lemma float64_at_19: "float64 (11529215046068471 / 144115188075855872) = 1441151880758559 / 18014398509481984"
  using float64_eval_tie [of "- 4" "11529215046068471 / 144115188075855872" 5764607523034235] by simp

lemma float64_at_20: "float64 (12970366926827029 / 144115188075855872) = 3242591731706757 / 36028797018963968"
  using float64_eval_tie [of "- 4" "12970366926827029 / 144115188075855872" 6485183463413514] by simp

lemma float64_at_21: "float64 (1 / 10) = 3602879701896397 / 36028797018963968"
  using float64_eval [of "- 4" "1 / 10" 7205759403792794] by simp

lemma float64_at_22: "float64 (3602879701896397 / 36028797018963968) = 3602879701896397 / 36028797018963968"
  using float64_eval [of "- 4" "3602879701896397 / 36028797018963968" 7205759403792794] by simp

lemma float64_at_23: "float64 (2882303761517117 / 18014398509481984) = 2882303761517117 / 18014398509481984"
  using float64_eval [of "- 3" "2882303761517117 / 18014398509481984" 5764607523034234] by simp

lemma float64_at_24: "float64 (11529215046068469 / 72057594037927936) = 2882303761517117 / 18014398509481984"
  using float64_eval_tie [of "- 3" "11529215046068469 / 72057594037927936" 5764607523034234] by simp

lemma float64_at_25: "float64 (28823037615171173 / 144115188075855872) = 7205759403792793 / 36028797018963968"
  using float64_eval [of "- 3" "28823037615171173 / 144115188075855872" 7205759403792793] by simp

lemma float64_at_26: "float64 (1 / 5) = 3602879701896397 / 18014398509481984"
  using float64_eval [of "- 3" "1 / 5" 7205759403792794] by simp

lemma float64_at_27: "float64 (3602879701896397 / 18014398509481984) = 3602879701896397 / 18014398509481984"
  using float64_eval [of "- 3" "3602879701896397 / 18014398509481984" 7205759403792794] by simp

lemma float64_at_28: "float64 (3 / 10) = 5404319552844595 / 18014398509481984"
  using float64_eval [of "- 2" "3 / 10" 5404319552844595] by simp

lemma float64_at_29: "float64 (12610078956637389 / 36028797018963968) = 3152519739159347 / 9007199254740992"
  using float64_eval_tie [of "- 2" "12610078956637389 / 36028797018963968" 6305039478318694] by simp

lemma float64_at_30: "float64 (14411518807585587 / 36028797018963968) = 3602879701896397 / 9007199254740992"
  using float64_eval_tie [of "- 2" "14411518807585587 / 36028797018963968" 7205759403792793] by simp

lemma float64_at_31: "float64 (7 / 10) = 3152519739159347 / 4503599627370496"
  using float64_eval [of "- 1" "7 / 10" 6305039478318694] by simp

lemmas float64_values = float64_0
  float64_at_1 float64_at_2 float64_at_3 float64_at_4 float64_at_5 float64_at_6
  float64_at_7 float64_at_8 float64_at_9 float64_at_10 float64_at_11 float64_at_12
  float64_at_13 float64_at_14 float64_at_15 float64_at_16 float64_at_17 float64_at_18
  float64_at_19 float64_at_20 float64_at_21 float64_at_22 float64_at_23 float64_at_24
  float64_at_25 float64_at_26 float64_at_27 float64_at_28 float64_at_29 float64_at_30
  float64_at_31

subsection \<open>The update rule\<close>

text \<open>
  C1, as the code has it. With one name per node (\<open>name_list\<close> of length \<open>n\<close>), a quantity
  vector of length \<open>n\<close> and an \<open>n\<close> by \<open>n\<close> weight matrix, network_dynamics returns new
  quantities \<open>q'\<close> of length \<open>n\<close>. In exact arithmetic
  \<open>q'[i] = q[i] - loss[i] + transfer[i]\<close> for every node \<open>i\<close>, where \<open>transfer[j]\<close> is the
  sum over \<open>i\<close> of \<open>q[i] * W[i][j]\<close> and \<open>loss[i]\<close> is \<open>q[i]\<close> times the sum of row \<open>i\<close> of
  \<open>W\<close>. With any rounding, float64 among them, \<open>q'[i]\<close> is the rounded difference of
  \<open>q[i]\<close> and the loss that the code computed, plus the transfer that it computed, rounded.
\<close>

theorem network_dynamics_update:
  assumes "length name_list = n" and "length quantities = n" and "is_matrix n n links"
  shows "(\<exists>quantities' links'.
            network_dynamics exact cfg name_list u quantities links = Inr (quantities', links')
          \<and> length quantities' = n
          \<and> (\<forall>i < n. quantities' ! i
                = quantities ! i - quantities ! i * sum_list (links ! i)
                    + (\<Sum>k\<leftarrow>[0..<n]. quantities ! k * links ! k ! i)))
       \<and> (\<exists>transfers losses quantities' links'.
            dot_vm fl quantities links = Inr transfers
          \<and> losses_of fl quantities links = Inr losses
          \<and> network_dynamics fl cfg name_list u quantities links = Inr (quantities', links')
          \<and> length quantities' = n
          \<and> (\<forall>i < n. quantities' ! i = fl (fl (quantities ! i - losses ! i) + transfers ! i)))"
proof
  from network_dynamics_exact [OF assms(2,3,1), of cfg u]
  show "\<exists>quantities' links'.
            network_dynamics exact cfg name_list u quantities links = Inr (quantities', links')
          \<and> length quantities' = n
          \<and> (\<forall>i < n. quantities' ! i
                = quantities ! i - quantities ! i * sum_list (links ! i)
                    + (\<Sum>k\<leftarrow>[0..<n]. quantities ! k * links ! k ! i))"
    by auto
next
  from network_dynamics_in_range [of quantities n links name_list fl cfg u] assms
  obtain links' where nd: "network_dynamics fl cfg name_list u quantities links =
      Inr (map (\<lambda>i. fl (fl (quantities ! i - loss_diag fl quantities links i)
                       + transfer_spec fl quantities links i)) [0..<n], links')"
    by auto
  let ?t = "map (transfer_spec fl quantities links) [0..<n]"
  let ?l = "map (loss_diag fl quantities links) [0..<n]"
  have "\<forall>i < n. map (\<lambda>i. fl (fl (quantities ! i - loss_diag fl quantities links i)
                       + transfer_spec fl quantities links i)) [0..<n] ! i
               = fl (fl (quantities ! i - ?l ! i) + ?t ! i)"
    by simp
  with nd dot_vm_square [OF assms(2,3), of fl] losses_of_square [OF assms(2,3), of fl]
  show "\<exists>transfers losses quantities' links'.
            dot_vm fl quantities links = Inr transfers
          \<and> losses_of fl quantities links = Inr losses
          \<and> network_dynamics fl cfg name_list u quantities links = Inr (quantities', links')
          \<and> length quantities' = n
          \<and> (\<forall>i < n. quantities' ! i = fl (fl (quantities ! i - losses ! i) + transfers ! i))"
    by (intro exI [of _ ?t] exI [of _ ?l] exI [of _ "map (\<lambda>i. fl (fl (quantities ! i
          - loss_diag fl quantities links i) + transfer_spec fl quantities links i)) [0..<n]"]
          exI [of _ links']) simp
qed

theorem network_dynamics_update_witness:
  "length [''Ann'', ''Bob''] = 2 \<and> length [2, 3 :: real] = 2
   \<and> is_matrix 2 2 [[0, 1 / 2], [1 / 4, 0]]
   \<and> (\<exists>links'. network_dynamics exact constants [''Ann'', ''Bob''] zero_draws [2, 3]
                   [[0, 1 / 2], [1 / 4, 0]] = Inr ([7 / 4, 13 / 4], links'))"
proof -
  have h: "length [''Ann'', ''Bob''] = 2" "length [2, 3 :: real] = 2"
    "is_matrix 2 2 [[0, 1 / 2], [1 / 4, 0]]"
    by (simp_all add: is_matrix_def)
  from network_dynamics_update [OF h, of constants zero_draws float64]
  obtain q' links' where nd: "network_dynamics exact constants [''Ann'', ''Bob''] zero_draws [2, 3]
        [[0, 1 / 2], [1 / 4, 0]] = Inr (q', links')"
    and len: "length q' = 2"
    and val: "\<forall>i < 2. q' ! i = [2, 3] ! i - [2, 3] ! i * sum_list ([[0, 1 / 2], [1 / 4, 0]] ! i)
                 + (\<Sum>k\<leftarrow>[0..<2]. [2, 3] ! k * [[0, 1 / 2], [1 / 4, 0]] ! k ! i)"
    by blast
  have "q' ! 0 = 7 / 4" and "q' ! 1 = 13 / 4"
    using val by (simp_all add: upt_conv_Cons)
  with len have "q' = [7 / 4, 13 / 4]" by (intro list2_eq)
  with nd h show ?thesis by blast
qed

text \<open>
  C1, as stated, fails in float64. For \<open>q = [0.1, 0.1, 0]\<close> and the weights
  \<open>W[0] = [0, 0.1, 0.3]\<close>, \<open>W[1][0] = 0.2\<close> the code returns
  \<open>q'[0] = 0.08000000000000002\<close>, while \<open>q[0] - loss[0] + transfer[0]\<close> with
  \<open>loss[0] = q[0] * (W[0][0] + W[0][1] + W[0][2])\<close> is \<open>0.08\<close> in float64 and another
  number again over the reals. The theorem writes every float64 as the fraction it is;
  \<open>float64 (1 / 10)\<close> is the literal \<open>0.1\<close> of Python.
\<close>

theorem network_dynamics_update_rounds:
  "map_sum id fst (network_dynamics float64 constants [''Ann'', ''Bob'', ''Cyd''] zero_draws
      [float64 (1 / 10), float64 (1 / 10), 0]
      [[0, float64 (1 / 10), float64 (3 / 10)], [float64 (1 / 5), 0, 0], [0, 0, 0]])
     = Inr [1441151880758559 / 18014398509481984,
            3242591731706757 / 36028797018963968,
            1080863910568919 / 36028797018963968]
   \<and> update_spec float64 [float64 (1 / 10), float64 (1 / 10), 0]
        [[0, float64 (1 / 10), float64 (3 / 10)], [float64 (1 / 5), 0, 0], [0, 0, 0]] 0
     = 5764607523034235 / 72057594037927936
   \<and> update_spec exact [float64 (1 / 10), float64 (1 / 10), 0]
        [[0, float64 (1 / 10), float64 (3 / 10)], [float64 (1 / 5), 0, 0], [0, 0, 0]] 0
     = 103845937170696560496945270756475 / 1298074214633706907132624082305024
   \<and> (1441151880758559 / 18014398509481984 :: real) \<noteq> 5764607523034235 / 72057594037927936
   \<and> (1441151880758559 / 18014398509481984 :: real)
        \<noteq> 103845937170696560496945270756475 / 1298074214633706907132624082305024"
  by (simp add: network_dynamics_def dot_vm_def losses_of_def dot_mm_def repmat_def diagonal_def
      ncols_def getitem_def uniform_def uniform1_def shape_def multiply_def fsum_def
      transfer_spec_def loss_spec_def update_spec_def exact_def upt_conv_Cons float64_values)

text \<open>
  C2, as the code has it. In exact arithmetic, for \<open>n\<close> names, \<open>n\<close> quantities and an
  \<open>n\<close> by \<open>n\<close> matrix, the transfers and the losses that network_dynamics computes have
  the same total, and the sum of the new quantities equals the sum of the old ones.
\<close>

theorem network_dynamics_conserves:
  assumes "length name_list = n" and "length quantities = n" and "is_matrix n n links"
  shows "\<exists>transfers losses quantities' links'.
           dot_vm exact quantities links = Inr transfers
         \<and> losses_of exact quantities links = Inr losses
         \<and> sum_list transfers = sum_list losses
         \<and> network_dynamics exact cfg name_list u quantities links = Inr (quantities', links')
         \<and> sum_list quantities' = sum_list quantities"
proof -
  let ?t = "map (transfer_spec exact quantities links) [0..<n]"
  let ?l = "map (loss_diag exact quantities links) [0..<n]"
  have t: "?t = map (\<lambda>j. \<Sum>i\<leftarrow>[0..<n]. quantities ! i * links ! i ! j) [0..<n]"
    using assms(2) by (simp add: transfer_spec_exact)
  have l: "?l = map (\<lambda>i. quantities ! i * sum_list (links ! i)) [0..<n]"
    using assms(2,3) by (simp add: loss_diag_exact)
  have flow: "sum_list ?t = sum_list ?l"
    unfolding t l using total_flow [OF assms(2,3)] .
  from network_dynamics_exact [OF assms(2,3,1), of cfg u]
  obtain links' where nd: "network_dynamics exact cfg name_list u quantities links =
      Inr (map (\<lambda>i. quantities ! i - quantities ! i * sum_list (links ! i)
                 + (\<Sum>k\<leftarrow>[0..<n]. quantities ! k * links ! k ! i)) [0..<n], links')"
    by auto
  have "sum_list (map (\<lambda>i. quantities ! i - quantities ! i * sum_list (links ! i)
                 + (\<Sum>k\<leftarrow>[0..<n]. quantities ! k * links ! k ! i)) [0..<n])
        = sum_list quantities"
    using total_flow [OF assms(2,3)] by (simp add: sum_list_update [OF assms(2)])
  with nd flow dot_vm_square [OF assms(2,3), of exact] losses_of_square [OF assms(2,3), of exact]
  show ?thesis by blast
qed

theorem network_dynamics_conserves_witness:
  "length [''Ann'', ''Bob''] = 2 \<and> length [2, 3 :: real] = 2
   \<and> is_matrix 2 2 [[0, 1 / 2], [1 / 4, 0]]
   \<and> (\<exists>transfers losses quantities' links'.
           dot_vm exact [2, 3] [[0, 1 / 2], [1 / 4, 0]] = Inr transfers
         \<and> losses_of exact [2, 3] [[0, 1 / 2], [1 / 4, 0]] = Inr losses
         \<and> sum_list transfers = sum_list losses
         \<and> network_dynamics exact constants [''Ann'', ''Bob''] zero_draws [2, 3]
              [[0, 1 / 2], [1 / 4, 0]] = Inr (quantities', links')
         \<and> sum_list quantities' = 5)"
proof -
  have h: "length [''Ann'', ''Bob''] = 2" "length [2, 3 :: real] = 2"
    "is_matrix 2 2 [[0, 1 / 2], [1 / 4, 0]]"
    by (simp_all add: is_matrix_def)
  show ?thesis
    using h network_dynamics_conserves [OF h, of constants zero_draws] by simp
qed

text \<open>
  C2, as stated, fails in float64. For \<open>q = [0.1, 0.1]\<close> and \<open>W = [[0, 0.1], [0.7, 0]]\<close>
  the code returns \<open>q' = [0.15999999999999998, 0.040000000000000015]\<close>, whose sum is not
  the sum of \<open>q\<close>, neither over the reals nor added in float64 (\<open>0.19999999999999998\<close>
  against \<open>0.2\<close>). Every product of this run stands alone in its sum, so the order of the
  additions plays no part.
\<close>

theorem network_dynamics_loses_quantity:
  "map_sum id fst (network_dynamics float64 constants [''Ann'', ''Bob''] zero_draws
      [float64 (1 / 10), float64 (1 / 10)] [[0, float64 (1 / 10)], [float64 (7 / 10), 0]])
     = Inr [2882303761517117 / 18014398509481984, 5764607523034237 / 144115188075855872]
   \<and> sum_list [2882303761517117 / 18014398509481984, 5764607523034237 / 144115188075855872 :: real]
     = 28823037615171173 / 144115188075855872
   \<and> sum_list [float64 (1 / 10), float64 (1 / 10)] = 3602879701896397 / 18014398509481984
   \<and> (28823037615171173 / 144115188075855872 :: real) \<noteq> 3602879701896397 / 18014398509481984
   \<and> fsum float64 [2882303761517117 / 18014398509481984, 5764607523034237 / 144115188075855872]
     = 7205759403792793 / 36028797018963968
   \<and> fsum float64 [float64 (1 / 10), float64 (1 / 10)] = 3602879701896397 / 18014398509481984
   \<and> (7205759403792793 / 36028797018963968 :: real) \<noteq> 3602879701896397 / 18014398509481984"
  by (simp add: network_dynamics_def dot_vm_def losses_of_def dot_mm_def repmat_def diagonal_def
      ncols_def getitem_def uniform_def uniform1_def shape_def multiply_def fsum_def
      transfer_spec_def loss_spec_def update_spec_def exact_def upt_conv_Cons float64_values)




lemma network_dynamics_example_any:
  assumes "length name_list = 2" and "fl 0 = 0" and "fl (1 / 2) = 1 / 2"
  shows "dot_vm fl [1, 0] [[0, 1 / 2], [0, 0]] = Inr [0, 1 / 2]
       \<and> losses_of fl [1, 0] [[0, 1 / 2], [0, 0]] = Inr [1 / 2, 0]
       \<and> (\<exists>links'. network_dynamics fl cfg name_list u [1, 0] [[0, 1 / 2], [0, 0]]
                     = Inr ([1 / 2, 1 / 2], links'))"
proof -
  have t: "dot_vm fl [1, 0] [[0, 1 / 2], [0, 0]] = Inr [0, 1 / 2]"
    by (simp add: assms(2,3) dot_vm_def fsum_def ncols_def upt_conv_Cons)
  have l: "losses_of fl [1, 0] [[0, 1 / 2], [0, 0]] = Inr [1 / 2, 0]"
    by (simp add: assms(2,3) losses_of_def dot_mm_def fsum_def repmat_def diagonal_def
        ncols_def upt_conv_Cons)
  have r: "[0..<length name_list] = [0, 1]"
    using assms(1) by (simp add: upt_conv_Cons)
  have "\<exists>links'. network_dynamics fl cfg name_list u [1, 0] [[0, 1 / 2], [0, 0]]
                     = Inr ([1 / 2, 1 / 2], links')"
    by (simp add: assms(2,3) network_dynamics_def t l r getitem_def uniform_shape)
  with t l show ?thesis by blast
qed

text \<open>
  C6. For \<open>q = [1, 0]\<close> and \<open>W = [[0, 0.5], [0, 0]]\<close>, with two nodes, the transfers are
  \<open>[0, 0.5]\<close>, the losses are \<open>[0.5, 0]\<close> and network_dynamics returns the quantities
  \<open>[0.5, 0.5]\<close>, whatever the drift draws: in float64, where no operation of this run
  rounds, and in exact arithmetic.
\<close>

theorem network_dynamics_example:
  assumes "length name_list = 2"
  shows "(dot_vm float64 [1, 0] [[0, 1 / 2], [0, 0]] = Inr [0, 1 / 2]
        \<and> losses_of float64 [1, 0] [[0, 1 / 2], [0, 0]] = Inr [1 / 2, 0]
        \<and> (\<exists>links'. network_dynamics float64 cfg name_list u [1, 0] [[0, 1 / 2], [0, 0]]
                      = Inr ([1 / 2, 1 / 2], links')))
       \<and> (dot_vm exact [1, 0] [[0, 1 / 2], [0, 0]] = Inr [0, 1 / 2]
        \<and> losses_of exact [1, 0] [[0, 1 / 2], [0, 0]] = Inr [1 / 2, 0]
        \<and> (\<exists>links'. network_dynamics exact cfg name_list u [1, 0] [[0, 1 / 2], [0, 0]]
                      = Inr ([1 / 2, 1 / 2], links')))"
  using network_dynamics_example_any [OF assms float64_0 float64_half, of cfg u]
    network_dynamics_example_any [OF assms, of exact cfg u]
  by (simp add: exact_def)

theorem network_dynamics_example_witness:
  "length [''Ann'', ''Bob''] = 2
   \<and> dot_vm float64 [1, 0] [[0, 1 / 2], [0, 0]] = Inr [0, 1 / 2]
   \<and> losses_of float64 [1, 0] [[0, 1 / 2], [0, 0]] = Inr [1 / 2, 0]
   \<and> (\<exists>links'. network_dynamics float64 constants [''Ann'', ''Bob''] zero_draws [1, 0]
                   [[0, 1 / 2], [0, 0]] = Inr ([1 / 2, 1 / 2], links'))"
proof -
  have h: "length [''Ann'', ''Bob''] = 2" by simp
  show ?thesis using h network_dynamics_example [OF h, of constants zero_draws] by simp
qed

text \<open>
  C9, as the code has it. network_dynamics builds its result over
  \<open>range(len(name_list))\<close>: for quantities of length \<open>n\<close> and an \<open>n\<close> by \<open>n\<close> matrix,
  every read of the comprehension is in range exactly when \<open>len(name_list) \<le> n\<close>, and then
  the result has \<open>len(name_list)\<close> entries; with more names than quantities the call ends
  with IndexError. The rounding of the arithmetic plays no part.
\<close>

theorem network_dynamics_index_bounds:
  assumes "length quantities = n" and "is_matrix n n links"
  shows "(length name_list \<le> n \<longrightarrow>
            (\<exists>quantities' links'. network_dynamics fl cfg name_list u quantities links
                                     = Inr (quantities', links')
                                 \<and> length quantities' = length name_list))
       \<and> (n < length name_list \<longrightarrow>
            network_dynamics fl cfg name_list u quantities links = Inl IndexError)"
proof (intro conjI impI)
  assume "length name_list \<le> n"
  from network_dynamics_in_range [OF assms this, of fl cfg u]
  obtain links' where "network_dynamics fl cfg name_list u quantities links =
      Inr (map (\<lambda>i. fl (fl (quantities ! i - loss_diag fl quantities links i)
                       + transfer_spec fl quantities links i)) [0..<length name_list], links')"
    by auto
  then show "\<exists>quantities' links'. network_dynamics fl cfg name_list u quantities links
                                     = Inr (quantities', links')
                                 \<and> length quantities' = length name_list"
    by simp
next
  assume "n < length name_list"
  then show "network_dynamics fl cfg name_list u quantities links = Inl IndexError"
    by (rule network_dynamics_out_of_range [OF assms])
qed

theorem network_dynamics_index_bounds_witness:
  "length [1, 0 :: real] = 2 \<and> is_matrix 2 2 [[0, 1 / 2], [0, 0]]
   \<and> (\<exists>quantities' links'. network_dynamics float64 constants [''Ann''] zero_draws [1, 0]
          [[0, 1 / 2], [0, 0]] = Inr (quantities', links') \<and> length quantities' = 1)
   \<and> network_dynamics float64 constants [''Ann'', ''Bob'', ''Cyd''] zero_draws [1, 0]
        [[0, 1 / 2], [0, 0]] = Inl IndexError"
proof -
  have h: "length [1, 0 :: real] = 2" "is_matrix 2 2 [[0, 1 / 2], [0, 0]]"
    by (simp_all add: is_matrix_def)
  show ?thesis
    using h network_dynamics_index_bounds [OF h, of "[''Ann'']" float64 constants zero_draws]
      network_dynamics_index_bounds [OF h, of "[''Ann'', ''Bob'', ''Cyd'']" float64 constants
        zero_draws]
    by simp
qed

text \<open>
  C9, as stated, fails: with one name, two quantities and a 2 by 2 matrix the lengths
  differ, and still every read is in range and the call returns (one quantity), in float64
  as in exact arithmetic.
\<close>

theorem network_dynamics_shorter_name_list:
  "length [1, 0 :: real] \<noteq> length [''Ann''] \<and> is_matrix 2 2 [[0, 1 / 2], [0, 0]]
   \<and> network_dynamics float64 constants [''Ann''] zero_draws [1, 0] [[0, 1 / 2], [0, 0]]
       = Inr ([1 / 2], [[0, 17 / 40], [0, 0]])
   \<and> network_dynamics exact constants [''Ann''] zero_draws [1, 0] [[0, 1 / 2], [0, 0]]
       = Inr ([1 / 2], [[0, 17 / 40], [0, 0]])"
  by (simp add: network_dynamics_def dot_vm_def losses_of_def dot_mm_def repmat_def diagonal_def
      ncols_def getitem_def uniform_def uniform1_def shape_def multiply_def constants_def
      zero_draws_def is_matrix_def fsum_def exact_def float64_0 float64_half upt_conv_Cons)

subsection \<open>The drift of the weights\<close>

text \<open>
  The links that network_dynamics returns are the product of its links with the drawn
  factors; with draws in [0, 1] and \<open>0 \<le> LINK_MOD_DEV < LINK_MOD_BASE\<close> the factors are
  positive, and the returned matrix has its zeros where the given one has them.
\<close>

lemma multiply_zero_pattern:
  assumes "is_matrix r c A" and "is_matrix r c B" and "\<forall>i < r. \<forall>j < c. 0 < B ! i ! j"
  shows "\<forall>i < r. \<forall>j < c. (multiply A B ! i ! j = 0) = (A ! i ! j = 0)"
proof (intro allI impI)
  fix i j
  assume ij: "i < r" "j < c"
  then have "B ! i ! j \<noteq> 0" using assms(3) by fastforce
  then show "(multiply A B ! i ! j = 0) = (A ! i ! j = 0)"
    by (simp add: multiply_nth [OF assms(1,2) ij])
qed

lemma network_dynamics_links:
  "network_dynamics fl cfg name_list u quantities links = Inr (quantities', links') \<Longrightarrow>
   links' = multiply links
     (map (\<lambda>i. map (\<lambda>j. uniform1 (LINK_MOD_BASE cfg - LINK_MOD_DEV cfg)
                               (LINK_MOD_BASE cfg + LINK_MOD_DEV cfg) (u i j))
                 [0..<ncols links]) [0..<length links])"
  by (auto simp: network_dynamics_def uniform_shape split: sum.splits)

lemma network_dynamics_keeps_zero_pattern:
  assumes nd: "network_dynamics fl cfg name_list u quantities links = Inr (quantities', links')"
    and m: "is_matrix r c links"
    and dev: "0 \<le> LINK_MOD_DEV cfg" "LINK_MOD_DEV cfg < LINK_MOD_BASE cfg"
    and draws: "\<forall>i j. 0 \<le> u i j \<and> u i j \<le> 1"
  shows "is_matrix r c links' \<and> (\<forall>i < r. \<forall>j < c. (links' ! i ! j = 0) = (links ! i ! j = 0))"
proof (cases "r = 0")
  case True
  with m have "links = []" by (simp add: is_matrix_def)
  with network_dynamics_links [OF nd] True show ?thesis
    by (simp add: multiply_def is_matrix_def)
next
  case False
  let ?F = "map (\<lambda>i. map (\<lambda>j. uniform1 (LINK_MOD_BASE cfg - LINK_MOD_DEV cfg)
                               (LINK_MOD_BASE cfg + LINK_MOD_DEV cfg) (u i j))
                 [0..<c]) [0..<r]"
  from False m have "ncols links = c" by (simp add: is_matrix_ncols)
  with network_dynamics_links [OF nd] m have l: "links' = multiply links ?F"
    by (simp add: is_matrix_length)
  have f: "is_matrix r c ?F"
    by (simp add: is_matrix_def list_all_iff)
  have "0 < ?F ! i ! j" if "i < r" "j < c" for i j
  proof -
    have "0 \<le> 2 * LINK_MOD_DEV cfg * u i j"
      using dev(1) draws by simp
    then show ?thesis using that dev(2) by (simp add: uniform1_def)
  qed
  then have "\<forall>i < r. \<forall>j < c. 0 < ?F ! i ! j" by blast
  from multiply_zero_pattern [OF m f this] is_matrix_multiply [OF m f] l
  show ?thesis by simp
qed

text \<open>
  C5. With the drift interval positive (\<open>LINK_MOD_DEV < LINK_MOD_BASE\<close>, as for the
  constants of the source), the elementwise product of a weight matrix with a factor
  matrix of the same shape whose entries lie in
  \<open>[LINK_MOD_BASE - LINK_MOD_DEV, LINK_MOD_BASE + LINK_MOD_DEV]\<close> has a zero exactly
  where the weight matrix has one: no zero entry becomes nonzero and no nonzero entry
  becomes zero.
\<close>

theorem drift_keeps_zero_pattern:
  assumes "is_matrix r c links" and "is_matrix r c factors"
    and "LINK_MOD_DEV cfg < LINK_MOD_BASE cfg"
    and "\<forall>i < r. \<forall>j < c. LINK_MOD_BASE cfg - LINK_MOD_DEV cfg \<le> factors ! i ! j
                          \<and> factors ! i ! j \<le> LINK_MOD_BASE cfg + LINK_MOD_DEV cfg"
  shows "is_matrix r c (multiply links factors)
       \<and> (\<forall>i < r. \<forall>j < c. (multiply links factors ! i ! j = 0) = (links ! i ! j = 0))"
proof -
  have "(multiply links factors ! i ! j = 0) = (links ! i ! j = 0)" if "i < r" and "j < c" for i j
  proof -
    have "0 < factors ! i ! j" using assms(3,4) that by fastforce
    then show ?thesis by (simp add: multiply_nth [OF assms(1,2) that])
  qed
  then show ?thesis using is_matrix_multiply [OF assms(1,2)] by blast
qed

theorem drift_keeps_zero_pattern_witness:
  "is_matrix 2 2 [[0, 1 / 2], [1 / 4, 0]] \<and> is_matrix 2 2 [[17 / 20, 1], [23 / 20, 9 / 10]]
   \<and> LINK_MOD_DEV constants < LINK_MOD_BASE constants
   \<and> (multiply [[0, 1 / 2], [1 / 4, 0]] [[17 / 20, 1], [23 / 20, 9 / 10]] ! 0 ! 0 = 0)
   \<and> (multiply [[0, 1 / 2], [1 / 4, 0]] [[17 / 20, 1], [23 / 20, 9 / 10]] ! 1 ! 0 \<noteq> 0)"
proof -
  have h: "is_matrix 2 2 [[0, 1 / 2], [1 / 4, 0]]"
    "is_matrix 2 2 [[17 / 20, 1], [23 / 20, 9 / 10]]"
    "LINK_MOD_DEV constants < LINK_MOD_BASE constants"
    "\<forall>i < 2. \<forall>j < 2. LINK_MOD_BASE constants - LINK_MOD_DEV constants
                         \<le> [[17 / 20, 1], [23 / 20, 9 / 10]] ! i ! j
                     \<and> [[17 / 20, 1], [23 / 20, 9 / 10]] ! i ! j
                         \<le> LINK_MOD_BASE constants + LINK_MOD_DEV constants"
    by (simp_all add: is_matrix_def constants_def less_Suc_eq numeral_2_eq_2)
  show ?thesis
    using h(1-3) drift_keeps_zero_pattern [OF h] by simp
qed

subsection \<open>The flat list of the links\<close>

text \<open>
  C10. For a square matrix, flatten returns exactly the entries that are not zero, in
  row-major order (the rows one after the other, each from its first column on); its
  length is the number of index pairs with a nonzero entry.
\<close>

theorem flatten_nonzero_row_major:
  assumes "is_matrix n n links"
  shows "\<exists>links_flat. flatten links = Inr links_flat
       \<and> links_flat = filter (\<lambda>x. x \<noteq> 0) (concat links)
       \<and> length links_flat = card {(i, j). i < n \<and> j < n \<and> links ! i ! j \<noteq> 0}"
  using flatten_square [OF assms] count_nonzero [OF assms] by simp

theorem flatten_nonzero_row_major_witness:
  "is_matrix 2 2 [[0, 1 / 2], [3, 0]] \<and> flatten [[0, 1 / 2], [3, 0]] = Inr [1 / 2, 3]"
proof -
  have h: "is_matrix 2 2 [[0, 1 / 2], [3, 0]]" by (simp add: is_matrix_def)
  show ?thesis using h flatten_nonzero_row_major [OF h] by simp
qed

subsection \<open>Start-up\<close>










end
